theory Spec2Isabelle
  imports Main "HOL-Library.Word" "HOL-Library.Signed_Division"
begin

unbundle bit_operations_syntax

section \<open>Bytes, strings and slices\<close>

text \<open>
  A Go \<open>byte\<close> is an 8-bit word. A Go \<open>string\<close> and a non-nil \<open>[]byte\<close> are both
  finite sequences of bytes, and the conversions \<open>[]byte(s)\<close> and \<open>string(b)\<close> copy the
  bytes unchanged, so both are modelled as \<open>byte list\<close>. A slice that may be \<open>nil\<close>
  and whose nil-ness the code tests (\<open>Command.Body\<close>) is a \<open>bytes option\<close>, with \<open>None\<close>
  for \<open>nil\<close> and \<open>Some []\<close> for a non-nil slice of length zero. \<open>Command.Params\<close> is only
  ever measured with \<open>len\<close> and ranged over, where \<open>nil\<close> and the empty slice behave alike:
  it is a plain list.
\<close>

type_synonym byte = "8 word"
type_synonym bytes = "byte list"

text \<open>The bytes of an ASCII string literal of the source, as in \<open>[]byte("PUB")\<close>.\<close>

definition ascii :: "string \<Rightarrow> bytes" where
  "ascii s = map of_char s"

text \<open>\<open>var byteSpace = []byte(" ")\<close> and \<open>var byteNewLine = []byte("\n")\<close>.\<close>

definition byteSpace :: bytes where
  "byteSpace = [32]"

definition byteNewLine :: bytes where
  "byteNewLine = [10]"

section \<open>The Command structure\<close>

record Command =
  Name :: bytes
  Params :: "bytes list"
  Body :: "bytes option"

section \<open>Library functions the source calls\<close>

text \<open>
  \<open>binary.BigEndian.PutUint32(b, v)\<close> of \<open>encoding/binary\<close>:
  \<open>b[0] = byte(v >> 24); b[1] = byte(v >> 16); b[2] = byte(v >> 8); b[3] = byte(v)\<close>.
\<close>

definition PutUint32 :: "32 word \<Rightarrow> bytes" where
  "PutUint32 v = [ucast (drop_bit 24 v), ucast (drop_bit 16 v), ucast (drop_bit 8 v), ucast v]"


text \<open>
  \<open>strconv.Itoa(i)\<close>: the decimal digits of \<open>i\<close>, most significant first and without
  leading zeros, after a minus sign when \<open>i\<close> is negative. Byte 48 is the digit zero, byte 45
  the minus sign.
\<close>

function decimal :: "nat \<Rightarrow> bytes" where
  "decimal n = (if n < 10 then [of_nat (48 + n)] else decimal (n div 10) @ [of_nat (48 + n mod 10)])"
  by pat_completeness auto
termination
  by (relation "measure id") auto

declare decimal.simps [simp del]

definition Itoa :: "int \<Rightarrow> bytes" where
  "Itoa i = (if i < 0 then 45 # decimal (nat (- i)) else decimal (nat i))"

text \<open>
  An \<open>io.Writer\<close>: \<open>Write(p)\<close> returns the count \<open>n\<close> it reports and an error (\<open>None\<close> is
  Go's \<open>nil\<close> error), and may change the writer, whose state is passed explicitly. The
  count is a Go \<open>int\<close>, taken to be 64 bits wide: a \<open>64 word\<close>, read as a signed number
  with \<open>sint\<close>. The error type is left open: the code only tests errors against \<open>nil\<close> and
  hands them on.
\<close>

type_synonym ('s, 'e) Writer = "'s \<Rightarrow> bytes \<Rightarrow> (64 word \<times> 'e option) \<times> 's"

text \<open>
  \<open>bytes.Buffer.Write\<close>: appends \<open>p\<close> to the buffer; "the return value n is the length of p;
  err is always nil". A buffer that cannot grow panics and does not return an error: where
  the source writes to a buffer, in \<open>MultiPublish\<close>, that test (\<open>Buffer_fits\<close>, below)
  stands before the write.
\<close>

definition Buffer_Write :: "(bytes, 'e) Writer" where
  "Buffer_Write buf p = ((of_nat (length p), None), buf @ p)"

text \<open>
  \<open>binary.Write(w, binary.BigEndian, data)\<close> for a \<open>*uint32\<close> or an \<open>int32\<close>: the four
  bytes \<open>PutUint32\<close> gives for the value (an \<open>int32\<close> is converted to \<open>uint32\<close> first, which
  keeps its bits) are handed to \<open>w.Write\<close> in one call, whose error is the result.
\<close>

definition binary_Write :: "('s, 'e) Writer \<Rightarrow> 's \<Rightarrow> 32 word \<Rightarrow> 'e option \<times> 's" where
  "binary_Write w s v = (case w s (PutUint32 v) of ((n, err), s') \<Rightarrow> (err, s'))"

section \<open>Command.String\<close>


section \<open>Command.WriteTo\<close>

text \<open>
  The loop over \<open>c.Params\<close> (lines 53 to 64), with the running \<open>total\<close> (here
  \<open>tot\<close>, an \<open>int64\<close>): each iteration writes the space, then the parameter, and returns at
  the first error.
\<close>

fun WriteTo_params ::
  "('s, 'e) Writer \<Rightarrow> bytes list \<Rightarrow> 64 word \<Rightarrow> 's \<Rightarrow> (64 word \<times> 'e option) \<times> 's" where
  "WriteTo_params w [] tot s = ((tot, None), s)"
| "WriteTo_params w (param # rest) tot s =
     (case w s byteSpace of
        ((n, Some e), s1) \<Rightarrow> ((tot + n, Some e), s1)
      | ((n, None), s1) \<Rightarrow>
          (case w s1 param of
             ((n', Some e), s2) \<Rightarrow> ((tot + n + n', Some e), s2)
           | ((n', None), s2) \<Rightarrow> WriteTo_params w rest (tot + n + n') s2))"

text \<open>
  \<open>total\<close> is an \<open>int64\<close>: a \<open>64 word\<close>, and \<open>total += int64(n)\<close> is the addition of
  words, which wraps around.
  \<open>len(c.Body)\<close> is an \<open>int\<close>, taken to be 64 bits wide, so that a slice can be longer
  than \<open>2^32\<close> bytes; \<open>uint32(len(c.Body))\<close> keeps the low 32 bits of the length:
  \<open>of_nat\<close> into \<open>32 word\<close>.
\<close>

definition WriteTo :: "('s, 'e) Writer \<Rightarrow> Command \<Rightarrow> 's \<Rightarrow> (64 word \<times> 'e option) \<times> 's" where
  "WriteTo w c s =
     (case w s (Name c) of
        ((n, Some e), s1) \<Rightarrow> ((n, Some e), s1)
      | ((n, None), s1) \<Rightarrow>
     (case WriteTo_params w (Params c) n s1 of
        ((tot, Some e), s2) \<Rightarrow> ((tot, Some e), s2)
      | ((tot, None), s2) \<Rightarrow>
     (case w s2 byteNewLine of
        ((n, Some e), s3) \<Rightarrow> ((tot + n, Some e), s3)
      | ((n, None), s3) \<Rightarrow>
     (case Body c of
        None \<Rightarrow> ((tot + n, None), s3)
      | Some body \<Rightarrow>
     (case w s3 (PutUint32 (of_nat (length body))) of
        ((n1, Some e), s4) \<Rightarrow> ((tot + n + n1, Some e), s4)
      | ((n1, None), s4) \<Rightarrow>
     (case w s4 body of
        ((n2, Some e), s5) \<Rightarrow> ((tot + n + n1 + n2, Some e), s5)
      | ((n2, None), s5) \<Rightarrow> ((tot + n + n1 + n2, None), s5)))))))"

section \<open>The constructors\<close>

text \<open>
  \<open>json.Marshal\<close> belongs to the standard library and is a parameter \<open>marshal\<close> of
  \<open>Identify\<close>: it gives the encoding of the option map or an error. A constructor that
  returns \<open>(*Command, error)\<close> returns a sum, \<open>Inl\<close> for \<open>(nil, err)\<close>.
\<close>

definition Identify :: "('m \<Rightarrow> 'e + bytes) \<Rightarrow> 'm \<Rightarrow> 'e + Command" where
  "Identify marshal js =
     (case marshal js of
        Inl err \<Rightarrow> Inl err
      | Inr body \<Rightarrow> Inr \<lparr>Name = ascii ''IDENTIFY'', Params = [], Body = Some body\<rparr>)"

definition Auth :: "bytes \<Rightarrow> 'e + Command" where
  "Auth secret = Inr \<lparr>Name = ascii ''AUTH'', Params = [], Body = Some secret\<rparr>"

definition Register :: "bytes \<Rightarrow> bytes \<Rightarrow> Command" where
  "Register topic channel =
     (let params = [topic];
          params = (if length channel > 0 then params @ [channel] else params)
      in \<lparr>Name = ascii ''REGISTER'', Params = params, Body = None\<rparr>)"

definition UnRegister :: "bytes \<Rightarrow> bytes \<Rightarrow> Command" where
  "UnRegister topic channel =
     (let params = [topic];
          params = (if length channel > 0 then params @ [channel] else params)
      in \<lparr>Name = ascii ''UNREGISTER'', Params = params, Body = None\<rparr>)"

definition Ping :: Command where
  "Ping = \<lparr>Name = ascii ''PING'', Params = [], Body = None\<rparr>"

definition Publish :: "bytes \<Rightarrow> bytes option \<Rightarrow> Command" where
  "Publish topic body = \<lparr>Name = ascii ''PUB'', Params = [topic], Body = body\<rparr>"

text \<open>
  A \<open>time.Duration\<close> is an \<open>int64\<close> count of nanoseconds and \<open>time.Millisecond\<close> is
  \<open>1000000\<close>; Go's integer division truncates towards zero (\<open>sdiv\<close>). Go's \<open>int\<close> is taken
  to be 64 bits wide, so that \<open>int(...)\<close> keeps the quotient.
\<close>

definition DeferredPublish :: "bytes \<Rightarrow> 64 word \<Rightarrow> bytes option \<Rightarrow> Command" where
  "DeferredPublish topic delay body =
     \<lparr>Name = ascii ''DPUB'', Params = [topic, Itoa (sint delay sdiv 1000000)], Body = body\<rparr>"

text \<open>
  A call that panics does not return: \<open>Panic\<close>; otherwise \<open>Return\<close> of what it returns.
\<close>

datatype 'a outcome = Panic | Return 'a

text \<open>
  \<open>maxAlloc\<close> of the Go runtime, the largest size of one allocation: \<open>2^48\<close> bytes on the
  64-bit platforms with 48 bits of heap address (linux/amd64 among them).
  \<open>make([]byte, 0, cap)\<close> panics (\<open>makeslice: cap out of range\<close>) when \<open>cap\<close> is negative
  or larger than \<open>maxAlloc\<close>. No slice holds more than \<open>maxAlloc\<close> bytes, so a
  \<open>bytes.Buffer\<close> that would have to grow beyond it panics (\<open>ErrTooLarge\<close>) in \<open>Write\<close>.
  Running out of memory below these limits is not modelled.
\<close>

definition maxAlloc :: nat where
  "maxAlloc = 2 ^ 48"

definition makeslice_ok :: "64 word \<Rightarrow> bool" where
  "makeslice_ok cap = (0 \<le> sint cap \<and> sint cap \<le> int maxAlloc)"

definition Buffer_fits :: "bytes \<Rightarrow> bytes \<Rightarrow> bool" where
  "Buffer_fits buf p = (length buf + length p \<le> maxAlloc)"

text \<open>
  The first loop of \<open>MultiPublish\<close> (lines 160 to 162): \<open>bodySize += len(b) + 4\<close> on an
  \<open>int\<close> of 64 bits, which wraps around.
\<close>

fun MultiPublish_bodySize :: "bytes list \<Rightarrow> 64 word \<Rightarrow> 64 word" where
  "MultiPublish_bodySize [] bodySize = bodySize"
| "MultiPublish_bodySize (b # bodies) bodySize =
     MultiPublish_bodySize bodies (bodySize + (of_nat (length b) + 4))"

text \<open>
  The second loop of \<open>MultiPublish\<close> (lines 170 to 179) on the buffer: the length of each
  message as an \<open>int32\<close>, then the message, returning at the first error. Each write to the
  buffer panics if the buffer cannot hold it.
\<close>

fun MultiPublish_bodies :: "bytes list \<Rightarrow> bytes \<Rightarrow> ('e option \<times> bytes) outcome" where
  "MultiPublish_bodies [] buf = Return (None, buf)"
| "MultiPublish_bodies (b # bodies) buf =
     (if \<not> Buffer_fits buf (PutUint32 (of_nat (length b))) then Panic
      else case binary_Write Buffer_Write buf (of_nat (length b)) of
        (Some err, buf1) \<Rightarrow> Return (Some err, buf1)
      | (None, buf1) \<Rightarrow>
          (if \<not> Buffer_fits buf1 b then Panic
           else case Buffer_Write buf1 b of
             ((n, Some err), buf2) \<Rightarrow> Return (Some err, buf2)
           | ((n, None), buf2) \<Rightarrow> MultiPublish_bodies bodies buf2))"

text \<open>
  \<open>MultiPublish\<close>: \<open>bodySize\<close> is the capacity \<open>make\<close> is asked for, and \<open>make\<close> panics
  when it is out of range; the buffer starts empty. \<open>uint32(len(bodies))\<close> and
  \<open>int32(len(b))\<close> keep the low 32 bits of the lengths.
\<close>

definition MultiPublish :: "bytes \<Rightarrow> bytes list \<Rightarrow> ('e + Command) outcome" where
  "MultiPublish topic bodies =
     (let params = [topic];
          num = (of_nat (length bodies) :: 32 word);
          bodySize = MultiPublish_bodySize bodies 4
      in if \<not> makeslice_ok bodySize then Panic
         else if \<not> Buffer_fits [] (PutUint32 num) then Panic
         else case binary_Write Buffer_Write [] num of
           (Some err, buf) \<Rightarrow> Return (Inl err)
         | (None, buf) \<Rightarrow>
             (case MultiPublish_bodies bodies buf of
                Panic \<Rightarrow> Panic
              | Return (Some err, buf') \<Rightarrow> Return (Inl err)
              | Return (None, buf') \<Rightarrow>
                  Return (Inr \<lparr>Name = ascii ''MPUB'', Params = params, Body = Some buf'\<rparr>)))"

definition Subscribe :: "bytes \<Rightarrow> bytes \<Rightarrow> Command" where
  "Subscribe topic channel = \<lparr>Name = ascii ''SUB'', Params = [topic, channel], Body = None\<rparr>"

definition Ready :: "64 word \<Rightarrow> Command" where
  "Ready count = \<lparr>Name = ascii ''RDY'', Params = [Itoa (sint count)], Body = None\<rparr>"

text \<open>
  Modelled from the spec: the type \<open>MessageID\<close> is declared outside the given sources; the
  specification gives a message identifier as 16 raw bytes (a \<open>[16]byte\<close>). It is a byte
  list of length 16 here, and \<open>id[:]\<close> is that list.
\<close>

definition MessageID :: "bytes \<Rightarrow> bool" where
  "MessageID mid = (length mid = 16)"

definition Finish :: "bytes \<Rightarrow> Command" where
  "Finish mid = \<lparr>Name = ascii ''FIN'', Params = [mid], Body = None\<rparr>"

definition Requeue :: "bytes \<Rightarrow> 64 word \<Rightarrow> Command" where
  "Requeue mid delay =
     \<lparr>Name = ascii ''REQ'', Params = [mid, Itoa (sint delay sdiv 1000000)], Body = None\<rparr>"

definition Touch :: "bytes \<Rightarrow> Command" where
  "Touch mid = \<lparr>Name = ascii ''TOUCH'', Params = [mid], Body = None\<rparr>"

definition StartClose :: Command where
  "StartClose = \<lparr>Name = ascii ''CLS'', Params = [], Body = None\<rparr>"

definition Nop :: Command where
  "Nop = \<lparr>Name = ascii ''NOP'', Params = [], Body = None\<rparr>"

section \<open>Writers used to observe WriteTo\<close>

text \<open>
  \<open>write_each w ps tot s\<close> hands the slices \<open>ps\<close> to the writer one after the other, adds
  the reported counts to \<open>tot\<close> and stops at the first error. \<open>WriteTo_steps c\<close> lists the
  slices \<open>WriteTo\<close> passes to \<open>Write\<close>, in order, when no write fails. \<open>WriteTo\<close> is shown
  below to be \<open>write_each\<close> on \<open>WriteTo_steps\<close>.
\<close>

fun write_each ::
  "('s, 'e) Writer \<Rightarrow> bytes list \<Rightarrow> 64 word \<Rightarrow> 's \<Rightarrow> (64 word \<times> 'e option) \<times> 's" where
  "write_each w [] tot s = ((tot, None), s)"
| "write_each w (p # ps) tot s =
     (case w s p of
        ((n, Some e), s') \<Rightarrow> ((tot + n, Some e), s')
      | ((n, None), s') \<Rightarrow> write_each w ps (tot + n) s')"

definition WriteTo_steps :: "Command \<Rightarrow> bytes list" where
  "WriteTo_steps c =
     Name c # concat (map (\<lambda>param. [byteSpace, param]) (Params c)) @ [byteNewLine] @
     (case Body c of None \<Rightarrow> [] | Some body \<Rightarrow> [PutUint32 (of_nat (length body)), body])"

text \<open>
  \<open>traced w\<close> is the writer \<open>w\<close> with a log: it behaves as \<open>w\<close> and records, for every call
  of \<open>Write\<close>, the slice it was given, the count and the error it returned.
\<close>

definition traced ::
  "('s, 'e) Writer \<Rightarrow> ('s \<times> (bytes \<times> 64 word \<times> 'e option) list, 'e) Writer" where
  "traced w =
     (\<lambda>(s, log) p. case w s p of ((n, err), s') \<Rightarrow> ((n, err), (s', log @ [(p, n, err)])))"

text \<open>
  A writer with room for \<open>cap\<close> bytes: a slice that does not fit is written as far as there
  is room, and the short count is reported with an error.
\<close>

definition Limited_Write :: "nat \<Rightarrow> (bytes, string) Writer" where
  "Limited_Write cap buf p =
     (let room = cap - length buf
      in if length p \<le> room then ((of_nat (length p), None), buf @ p)
         else ((of_nat room, Some ''short write''), buf @ take room p))"

text \<open>
  \<open>io.Discard\<close>: \<open>Write\<close> keeps nothing and reports the whole slice written, with no
  error. A writer that reports the largest \<open>int\<close>, \<open>2^63 - 1\<close>, whatever it is given.
\<close>

definition Discard_Write :: "(unit, 'e) Writer" where
  "Discard_Write s p = ((of_nat (length p), None), s)"

definition Boasting_Write :: "(unit, 'e) Writer" where
  "Boasting_Write s p = ((9223372036854775807, None), s)"

text \<open>
  The size of the body \<open>MultiPublish\<close> assembles: four bytes for the count, and four bytes
  and the message for each message.
\<close>

definition mpub_size :: "bytes list \<Rightarrow> nat" where
  "mpub_size bodies = 4 + sum_list (map (\<lambda>b. 4 + length b) bodies)"

section \<open>The wire format as the specification words it\<close>

text \<open>
  The value of a big-endian unsigned integer, and of a 4-byte big-endian signed (two's
  complement) integer.
\<close>

definition be_uint :: "bytes \<Rightarrow> nat" where
  "be_uint bs = foldl (\<lambda>a b. 256 * a + unat b) 0 bs"

definition be_sint32 :: "bytes \<Rightarrow> int" where
  "be_sint32 bs = (if be_uint bs < 2 ^ 31 then int (be_uint bs) else int (be_uint bs) - 2 ^ 32)"

text \<open>
  The first line: the name, then each parameter after one space byte, then one newline byte.
\<close>

definition command_line :: "Command \<Rightarrow> bytes" where
  "command_line c = Name c @ concat (map (\<lambda>param. 32 # param) (Params c)) @ [10]"

text \<open>
  \<open>frame_spec c out\<close>: \<open>out\<close> is the first line and nothing more when the body is absent;
  when it is present, \<open>out\<close> is the first line, four bytes whose big-endian unsigned value is
  the length of the body, and the body.
\<close>

definition frame_spec :: "Command \<Rightarrow> bytes \<Rightarrow> bool" where
  "frame_spec c out =
     (case Body c of
        None \<Rightarrow> out = command_line c
      | Some body \<Rightarrow>
          (let field = take 4 (drop (length (command_line c)) out)
           in length field = 4 \<and> be_uint field = length body \<and>
              out = command_line c @ field @ body))"

text \<open>
  The body of MPUB: four bytes whose big-endian unsigned value is the number of messages,
  then for each message four bytes whose big-endian signed value is its length, and its bytes.
\<close>

fun mpub_messages_spec :: "bytes list \<Rightarrow> bytes \<Rightarrow> bool" where
  "mpub_messages_spec [] out = (out = [])"
| "mpub_messages_spec (m # ms) out =
     (4 + length m \<le> length out \<and> be_sint32 (take 4 out) = int (length m) \<and>
      take (length m) (drop 4 out) = m \<and> mpub_messages_spec ms (drop (4 + length m) out))"

definition mpub_body_spec :: "bytes list \<Rightarrow> bytes \<Rightarrow> bool" where
  "mpub_body_spec ms out =
     (4 \<le> length out \<and> be_uint (take 4 out) = length ms \<and> mpub_messages_spec ms (drop 4 out))"

text \<open>
  Modelled from the spec: the decoder of the wire format, which is not part of the sources.
  It takes the bytes up to the first newline as the first line and splits it at every space
  byte, the first token being the name and the others the parameters; if bytes follow the
  newline it reads a 4-byte big-endian unsigned length and then that many bytes as the body.
  \<open>split_sp\<close> splits a line at every space byte.
\<close>

fun split_sp :: "bytes \<Rightarrow> bytes list" where
  "split_sp [] = [[]]"
| "split_sp (b # bs) =
     (if b = 32 then [] # split_sp bs
      else (case split_sp bs of [] \<Rightarrow> [[b]] | t # ts \<Rightarrow> (b # t) # ts))"

text \<open>
  Modelled from the spec: \<open>decode\<close> is that decoder on the bytes of one frame; \<open>None\<close>
  when there is no newline, or when fewer bytes follow the length field than it announces.
\<close>

definition decode :: "bytes \<Rightarrow> Command option" where
  "decode bs =
     (if 10 \<notin> set bs then None
      else let line = takeWhile (\<lambda>b. b \<noteq> 10) bs;
               rest = drop (length line + 1) bs
           in case split_sp line of
                [] \<Rightarrow> None
              | name # params \<Rightarrow>
                  if rest = [] then Some \<lparr>Name = name, Params = params, Body = None\<rparr>
                  else if length rest < 4 then None
                  else let n = be_uint (take 4 rest)
                       in if length rest - 4 < n then None
                          else Some \<lparr>Name = name, Params = params,
                                     Body = Some (take n (drop 4 rest))\<rparr>)"

text \<open>A token that holds neither the space byte nor the newline byte.\<close>

definition no_delimiter :: "bytes \<Rightarrow> bool" where
  "no_delimiter p = (32 \<notin> set p \<and> 10 \<notin> set p)"

text \<open>
  A body that its 4-byte length field can describe, and the round trip of a Command through
  \<open>WriteTo\<close> on an empty buffer and \<open>decode\<close>.
\<close>

definition body_fits :: "Command \<Rightarrow> bool" where
  "body_fits c = (case Body c of None \<Rightarrow> True | Some body \<Rightarrow> length body < 2 ^ 32)"

definition round_trips :: "Command \<Rightarrow> bool" where
  "round_trips c = (decode (snd (WriteTo (Buffer_Write :: (bytes, unit) Writer) c [])) = Some c)"

section \<open>Auxiliary facts\<close>

subsection \<open>Big-endian fields\<close>

lemma length_PutUint32: "length (PutUint32 v) = 4"
  by (simp add: PutUint32_def)

lemma be_arith:
  fixes x :: nat
  shows "16777216 * (x div 16777216) + 65536 * (x div 65536 mod 256) +
         256 * (x div 256 mod 256) + x mod 256 = x"
proof -
  define a where "a = x div 256"
  define b where "b = a div 256"
  define c where "c = b div 256"
  have x8: "x div 256 = a" by (simp add: a_def)
  have x16: "x div 65536 = b" by (simp add: a_def b_def div_mult2_eq)
  have x24: "x div 16777216 = c" by (simp add: a_def b_def c_def div_mult2_eq)
  have "256 * c + b mod 256 = b" unfolding c_def by simp
  moreover have "256 * b + a mod 256 = a" unfolding b_def by simp
  moreover have "256 * a + x mod 256 = x" unfolding a_def by simp
  ultimately show ?thesis unfolding x8 x16 x24 by linarith
qed

lemma unat_low_byte: "unat (ucast (v::32 word) :: 8 word) = unat v mod 256"
  by (simp add: unsigned_ucast_eq take_bit_eq_mod)

lemma be_uint_PutUint32: "be_uint (PutUint32 v) = unat v"
proof -
  have "be_uint (PutUint32 v) =
        256 * (256 * (256 * (256 * 0 + unat v div 2^24 mod 256) + unat v div 2^16 mod 256)
          + unat v div 2^8 mod 256) + unat v mod 256"
    by (simp only: be_uint_def PutUint32_def foldl.simps unat_low_byte unat_drop_bit_eq)
       (simp only: drop_bit_eq_div)
  also have "\<dots> = unat v"
  proof -
    have "unat v < 4294967296" using unsigned_less[of v] by simp
    then have "unat v div 16777216 mod 256 = unat v div 16777216" by simp
    then show ?thesis using be_arith[of "unat v"] by simp
  qed
  finally show ?thesis .
qed

subsection \<open>WriteTo as a sequence of writes\<close>

lemma write_each_append:
  "write_each w (ps @ qs) tot s =
     (case write_each w ps tot s of
        ((t, Some e), s') \<Rightarrow> ((t, Some e), s')
      | ((t, None), s') \<Rightarrow> write_each w qs t s')"
  by (induction ps arbitrary: tot s) (auto split: prod.splits option.splits)

lemma WriteTo_params_each:
  "WriteTo_params w ps tot s = write_each w (concat (map (\<lambda>param. [byteSpace, param]) ps)) tot s"
  by (induction ps arbitrary: tot s) (auto split: prod.splits option.splits)

lemma WriteTo_each: "WriteTo w c s = write_each w (WriteTo_steps c) 0 s"
  by (auto simp: WriteTo_def WriteTo_steps_def WriteTo_params_each write_each_append
           split: prod.splits option.splits)

lemma write_each_Buffer:
  "write_each Buffer_Write ps tot buf =
     ((tot + of_nat (length (concat ps)), None), buf @ concat ps)"
  by (induction ps arbitrary: tot buf) (auto simp: Buffer_Write_def)

lemma write_each_Discard:
  "write_each Discard_Write ps tot s = ((tot + of_nat (length (concat ps)), None), s)"
  by (induction ps arbitrary: tot) (auto simp: Discard_Write_def)

lemma sum_list_sint:
  fixes ws :: "64 word list"
  assumes "- (2 ^ 63) \<le> sum_list (map sint ws)" and "sum_list (map sint ws) < 2 ^ 63"
  shows "sint (sum_list ws) = sum_list (map sint ws)"
proof -
  have "(of_int (sum_list (map sint ws)) :: 64 word) = sum_list ws"
    by (induction ws) simp_all
  then have "sint (sum_list ws) = sint (of_int (sum_list (map sint ws)) :: 64 word)"
    by simp
  also have "\<dots> = sum_list (map sint ws)"
    using assms by (simp add: signed_of_int signed_take_bit_int_eq_self)
  finally show ?thesis .
qed

lemma write_each_traced:
  assumes "write_each (traced w) ps tot (s, log) = ((tot', err), (s', log'))"
  shows "write_each w ps tot s = ((tot', err), s') \<and>
    (\<exists>new. log' = log @ new \<and> tot' = tot + sum_list (map (\<lambda>x. fst (snd x)) new) \<and>
       map fst new = take (length new) ps \<and>
       (case err of
          None \<Rightarrow> length new = length ps \<and> (\<forall>x \<in> set new. snd (snd x) = None)
        | Some e \<Rightarrow> new \<noteq> [] \<and> snd (snd (last new)) = Some e \<and>
                    (\<forall>x \<in> set (butlast new). snd (snd x) = None)))"
  using assms
proof (induction ps arbitrary: tot s log)
  case Nil
  then show ?case by simp
next
  case (Cons p ps)
  obtain n e s1 where w: "w s p = ((n, e), s1)" by (metis prod.exhaust)
  show ?case
  proof (cases e)
    case (Some err1)
    with w Cons.prems show ?thesis
      by (auto simp: traced_def)
  next
    case None
    with w Cons.prems
    have rec: "write_each (traced w) ps (tot + n) (s1, log @ [(p, n, None)]) = ((tot', err), (s', log'))"
      by (simp add: traced_def)
    from Cons.IH[OF rec] obtain new where
      a: "write_each w ps (tot + n) s1 = ((tot', err), s')" and
      b: "log' = (log @ [(p, n, None)]) @ new" and
      c: "tot' = tot + n + sum_list (map (\<lambda>x. fst (snd x)) new)" and
      d: "map fst new = take (length new) ps" and
      e: "(case err of
          None \<Rightarrow> length new = length ps \<and> (\<forall>x \<in> set new. snd (snd x) = None)
        | Some e \<Rightarrow> new \<noteq> [] \<and> snd (snd (last new)) = Some e \<and>
                    (\<forall>x \<in> set (butlast new). snd (snd x) = None))"
      by blast
    have 1: "write_each w (p # ps) tot s = ((tot', err), s')"
      using w None a by simp
    let ?new = "(p, n, None) # new"
    have 2: "log' = log @ ?new" using b by simp
    have 3: "tot' = tot + sum_list (map (\<lambda>x. fst (snd x)) ?new)" using c by simp
    have 4: "map fst ?new = take (length ?new) (p # ps)" using d by simp
    have 5: "(case err of
          None \<Rightarrow> length ?new = length (p # ps) \<and> (\<forall>x \<in> set ?new. snd (snd x) = None)
        | Some e \<Rightarrow> ?new \<noteq> [] \<and> snd (snd (last ?new)) = Some e \<and>
                    (\<forall>x \<in> set (butlast ?new). snd (snd x) = None))"
      using e by (cases err) auto
    from 1 2 3 4 5 show ?thesis by blast
  qed
qed

subsection \<open>What WriteTo leaves in a buffer\<close>

lemma concat_WriteTo_steps:
  "concat (WriteTo_steps c) =
     command_line c @
     (case Body c of None \<Rightarrow> [] | Some body \<Rightarrow> PutUint32 (of_nat (length body)) @ body)"
proof -
  have "concat (concat (map (\<lambda>param. [byteSpace, param]) ps)) =
        concat (map (\<lambda>param. 32 # param) ps)" for ps
    by (induction ps) (auto simp: byteSpace_def)
  then show ?thesis
    by (simp add: WriteTo_steps_def command_line_def byteNewLine_def split: option.splits)
qed

lemma WriteTo_Buffer:
  "WriteTo Buffer_Write c buf =
     ((of_nat (length (concat (WriteTo_steps c))), None), buf @ concat (WriteTo_steps c))"
  by (simp add: WriteTo_each write_each_Buffer)

lemma WriteTo_Discard:
  "WriteTo Discard_Write c s = ((of_nat (length (concat (WriteTo_steps c))), None), s)"
  by (simp add: WriteTo_each write_each_Discard)

lemma frame_spec_written:
  "frame_spec c (concat (WriteTo_steps c)) \<longleftrightarrow>
     (case Body c of None \<Rightarrow> True | Some body \<Rightarrow> length body < 2 ^ 32)"
proof (cases "Body c")
  case None
  then show ?thesis by (simp add: frame_spec_def concat_WriteTo_steps)
next
  case (Some body)
  have "unat (of_nat (length body) :: 32 word) = length body \<longleftrightarrow> length body < 2 ^ 32"
    using mod_less_divisor[of 4294967296 "length body"] by (auto simp: unat_of_nat)
  with Some show ?thesis
    by (simp add: frame_spec_def concat_WriteTo_steps length_PutUint32 be_uint_PutUint32 Let_def)
qed

subsection \<open>The buffer MultiPublish assembles\<close>

lemma MultiPublish_bodySize_eq:
  "MultiPublish_bodySize bodies bodySize =
     bodySize + of_nat (sum_list (map (\<lambda>b. 4 + length b) bodies))"
  by (induction bodies arbitrary: bodySize) (simp_all add: algebra_simps)

lemma makeslice_ok_of_nat:
  assumes "n \<le> maxAlloc"
  shows "makeslice_ok (of_nat n)"
proof -
  have "int n < 2 ^ 63" using assms by (simp add: maxAlloc_def)
  then have "sint (of_nat n :: 64 word) = int n"
    by (simp add: signed_of_nat signed_take_bit_int_eq_self)
  then show ?thesis using assms by (simp add: makeslice_ok_def)
qed

lemma MultiPublish_bodies_eq:
  assumes "length buf \<le> maxAlloc"
  shows "MultiPublish_bodies bodies buf =
     (if length buf + sum_list (map (\<lambda>b. 4 + length b) bodies) \<le> maxAlloc
      then Return (None, buf @ concat (map (\<lambda>b. PutUint32 (of_nat (length b)) @ b) bodies))
      else Panic)"
  using assms
  by (induction bodies arbitrary: buf)
     (simp_all add: Buffer_fits_def binary_Write_def Buffer_Write_def length_PutUint32)

lemma MultiPublish_bodies_no_error:
  "MultiPublish_bodies bodies buf \<noteq> Return (Some err, buf')"
  by (induction bodies arbitrary: buf)
     (simp_all add: Buffer_fits_def binary_Write_def Buffer_Write_def)

lemma MultiPublish_eq:
  "MultiPublish topic bodies =
     (if mpub_size bodies \<le> maxAlloc
      then Return (Inr \<lparr>Name = ascii ''MPUB'', Params = [topic],
             Body = Some (PutUint32 (of_nat (length bodies)) @
                          concat (map (\<lambda>b. PutUint32 (of_nat (length b)) @ b) bodies))\<rparr>)
      else Panic)"
proof -
  have size: "MultiPublish_bodySize bodies 4 = of_nat (mpub_size bodies)"
    by (simp add: MultiPublish_bodySize_eq mpub_size_def)
  have four: "Buffer_fits [] (PutUint32 v)" for v
    by (simp add: Buffer_fits_def length_PutUint32 maxAlloc_def)
  have loop: "MultiPublish_bodies bodies (PutUint32 v) =
     (if mpub_size bodies \<le> maxAlloc
      then Return (None, PutUint32 v @ concat (map (\<lambda>b. PutUint32 (of_nat (length b)) @ b) bodies))
      else Panic)" for v
    by (simp add: MultiPublish_bodies_eq length_PutUint32 mpub_size_def maxAlloc_def)
  show ?thesis
  proof (cases "mpub_size bodies \<le> maxAlloc")
    case True
    then show ?thesis
      using makeslice_ok_of_nat[OF True]
      by (simp add: MultiPublish_def Let_def size four loop binary_Write_def Buffer_Write_def)
  next
    case False
    then show ?thesis
      by (simp add: MultiPublish_def Let_def size four loop binary_Write_def Buffer_Write_def)
  qed
qed

lemma be_sint32_PutUint32:
  assumes "n < 2 ^ 31"
  shows "be_sint32 (PutUint32 (of_nat n)) = int n"
proof -
  have "unat (of_nat n :: 32 word) = n"
    using assms by (simp add: unat_of_nat)
  then show ?thesis using assms by (simp add: be_sint32_def be_uint_PutUint32)
qed

lemma mpub_messages_written:
  assumes "\<forall>b \<in> set bodies. length b < 2 ^ 31"
  shows "mpub_messages_spec bodies (concat (map (\<lambda>b. PutUint32 (of_nat (length b)) @ b) bodies))"
  using assms
  by (induction bodies) (simp_all add: length_PutUint32 be_sint32_PutUint32)

lemma WriteTo_Buffer_bytes:
  "WriteTo Buffer_Write c buf =
     ((of_nat (length (command_line c @
              (case Body c of None \<Rightarrow> [] | Some body \<Rightarrow> PutUint32 (of_nat (length body)) @ body))),
       None),
      buf @ command_line c @
        (case Body c of None \<Rightarrow> [] | Some body \<Rightarrow> PutUint32 (of_nat (length body)) @ body))"
  by (simp add: WriteTo_Buffer concat_WriteTo_steps)

lemma PutUint32_0: "PutUint32 0 = [0, 0, 0, 0]"
  by (simp add: PutUint32_def)


subsection \<open>Decoding what WriteTo wrote\<close>

lemma split_sp_no_space: "32 \<notin> set x \<Longrightarrow> split_sp x = [x]"
  by (induction x) auto

lemma split_sp_append: "32 \<notin> set x \<Longrightarrow> split_sp (x @ 32 # ys) = x # split_sp ys"
  by (induction x) auto

lemma split_sp_line:
  assumes "32 \<notin> set x" and "\<forall>p \<in> set ps. 32 \<notin> set p"
  shows "split_sp (x @ concat (map (\<lambda>param. 32 # param) ps)) = x # ps"
  using assms
proof (induction ps arbitrary: x)
  case Nil
  then show ?case by (simp add: split_sp_no_space)
next
  case (Cons p ps)
  have "split_sp (x @ 32 # (p @ concat (map (\<lambda>param. 32 # param) ps))) =
        x # split_sp (p @ concat (map (\<lambda>param. 32 # param) ps))"
    using Cons.prems(1) by (rule split_sp_append)
  also have "split_sp (p @ concat (map (\<lambda>param. 32 # param) ps)) = p # ps"
    using Cons.prems(2) by (intro Cons.IH) auto
  finally show ?case by simp
qed

lemma decode_frame:
  assumes line: "10 \<notin> set line" and toks: "split_sp line = name # params"
  shows "decode (line @ [10]) = Some \<lparr>Name = name, Params = params, Body = None\<rparr>"
    and "length body < 2 ^ 32 \<Longrightarrow>
         decode (line @ [10] @ PutUint32 (of_nat (length body)) @ body) =
           Some \<lparr>Name = name, Params = params, Body = Some body\<rparr>"
proof -
  have tw: "takeWhile (\<lambda>b. b \<noteq> 10) (line @ 10 # rest) = line" for rest
    using line by (induction line) auto
  show "decode (line @ [10]) = Some \<lparr>Name = name, Params = params, Body = None\<rparr>"
    using tw[of "[]"] toks by (simp add: decode_def)
  assume "length body < 2 ^ 32"
  then have n: "unat (of_nat (length body) :: 32 word) = length body"
    by (simp add: unat_of_nat)
  have ne: "PutUint32 (of_nat (length body)) @ body \<noteq> []"
    by (simp add: PutUint32_def)
  show "decode (line @ [10] @ PutUint32 (of_nat (length body)) @ body) =
           Some \<lparr>Name = name, Params = params, Body = Some body\<rparr>"
    using tw[of "PutUint32 (of_nat (length body)) @ body"] toks ne n
    by (simp add: decode_def length_PutUint32 be_uint_PutUint32 Let_def)
qed

lemma decode_written:
  assumes "no_delimiter (Name c)" and "\<forall>p \<in> set (Params c). no_delimiter p" and "body_fits c"
  shows "round_trips c"
proof -
  let ?line = "Name c @ concat (map (\<lambda>param. 32 # param) (Params c))"
  have l10: "10 \<notin> set ?line" using assms(1,2) by (auto simp: no_delimiter_def)
  have toks: "split_sp ?line = Name c # Params c"
    using assms(1,2) by (intro split_sp_line) (auto simp: no_delimiter_def)
  have out: "snd (WriteTo (Buffer_Write :: (bytes, unit) Writer) c []) =
    ?line @ [10] @ (case Body c of None \<Rightarrow> [] | Some body \<Rightarrow> PutUint32 (of_nat (length body)) @ body)"
    by (simp add: WriteTo_Buffer concat_WriteTo_steps command_line_def)
  show ?thesis
  proof (cases "Body c")
    case None
    then show ?thesis
      using decode_frame(1)[OF l10 toks] out by (simp add: round_trips_def)
  next
    case (Some body)
    then have "length body < 2 ^ 32" using assms(3) by (simp add: body_fits_def)
    from decode_frame(2)[OF l10 toks this] Some out show ?thesis
      by (simp add: round_trips_def)
  qed
qed

lemma digit_byte:
  assumes "d < 10"
  shows "(of_nat (48 + d) :: byte) \<noteq> 32 \<and> (of_nat (48 + d) :: byte) \<noteq> 10"
proof -
  have u: "unat (of_nat (48 + d) :: byte) = 48 + d"
    using assms unat_of_nat[of "48 + d", where 'a = 8] by simp
  have "unat (of_nat (48 + d) :: byte) \<noteq> unat (32 :: byte)"
    using assms unfolding u by simp
  moreover have "unat (of_nat (48 + d) :: byte) \<noteq> unat (10 :: byte)"
    using assms unfolding u by simp
  ultimately show ?thesis by metis
qed

lemma no_delimiter_decimal: "no_delimiter (decimal n)"
proof (induction n rule: decimal.induct)
  case (1 n)
  show ?case
  proof (cases "n < 10")
    case True
    then show ?thesis
      using digit_byte[of n] by (subst decimal.simps) (simp add: no_delimiter_def)
  next
    case False
    have "n mod 10 < 10" by simp
    from digit_byte[OF this] 1[OF False] False show ?thesis
      by (subst decimal.simps) (simp add: no_delimiter_def)
  qed
qed

lemma no_delimiter_Itoa: "no_delimiter (Itoa i)"
  using no_delimiter_decimal[of "nat (- i)"] no_delimiter_decimal[of "nat i"]
  by (simp add: Itoa_def no_delimiter_def)

lemma no_delimiter_verbs:
  "no_delimiter (ascii ''IDENTIFY'')" "no_delimiter (ascii ''AUTH'')"
  "no_delimiter (ascii ''REGISTER'')" "no_delimiter (ascii ''UNREGISTER'')"
  "no_delimiter (ascii ''PING'')" "no_delimiter (ascii ''PUB'')" "no_delimiter (ascii ''DPUB'')"
  "no_delimiter (ascii ''MPUB'')" "no_delimiter (ascii ''SUB'')" "no_delimiter (ascii ''RDY'')"
  "no_delimiter (ascii ''FIN'')" "no_delimiter (ascii ''REQ'')" "no_delimiter (ascii ''TOUCH'')"
  "no_delimiter (ascii ''CLS'')" "no_delimiter (ascii ''NOP'')"
  by (simp_all add: no_delimiter_def ascii_def)

section \<open>The claims\<close>

subsection \<open>C1: the bytes WriteTo writes\<close>

text \<open>
  C1, as amended. For every Command whose body is absent or shorter than \<open>2^32\<close> bytes,
  \<open>WriteTo\<close> on a buffer reports no error and, as an \<open>int64\<close>, the number of bytes it
  appended, and appends exactly: the name, then for each parameter in order one space byte and the parameter, then
  one newline byte; then, if and only if the body is present, four bytes whose big-endian
  unsigned value is the length of the body, and the body; nothing after the newline if the
  body is absent.
\<close>

theorem WriteTo_frame:
  assumes "case Body c of None \<Rightarrow> True | Some body \<Rightarrow> length body < 2 ^ 32"
  shows "\<exists>out. WriteTo Buffer_Write c buf = ((of_nat (length out), None), buf @ out) \<and>
               frame_spec c out"
  using assms WriteTo_Buffer[of c buf] frame_spec_written[of c] by blast

text \<open>The instance \<open>PUB("test", "hello")\<close>.\<close>

theorem WriteTo_frame_witness:
  "(case Body (Publish (ascii ''test'') (Some (ascii ''hello''))) of
      None \<Rightarrow> True | Some body \<Rightarrow> length body < 2 ^ 32) \<and>
   (\<exists>out. WriteTo (Buffer_Write :: (bytes, unit) Writer)
            (Publish (ascii ''test'') (Some (ascii ''hello''))) []
            = ((of_nat (length out), None), [] @ out) \<and>
          frame_spec (Publish (ascii ''test'') (Some (ascii ''hello''))) out)"
  using WriteTo_frame[of "Publish (ascii ''test'') (Some (ascii ''hello''))" "[]"]
  by (simp add: Publish_def ascii_def)

text \<open>
  C1 as stated fails for a body of \<open>2^32\<close> bytes: \<open>uint32(len(c.Body))\<close> is 0, the length
  field written is \<open>00 00 00 00\<close>, and no four bytes have the value \<open>2^32\<close>.
\<close>

theorem WriteTo_frame_counterexample:
  "WriteTo (Buffer_Write :: (bytes, unit) Writer)
     (Publish (ascii ''t'') (Some (replicate (2 ^ 32) 0))) [] =
     ((4294967306, None), ascii ''PUB t'' @ [10] @ [0, 0, 0, 0] @ replicate (2 ^ 32) 0) \<and>
   \<not> frame_spec (Publish (ascii ''t'') (Some (replicate (2 ^ 32) 0)))
        (ascii ''PUB t'' @ [10] @ [0, 0, 0, 0] @ replicate (2 ^ 32) 0)"
proof -
  let ?c = "Publish (ascii ''t'') (Some (replicate (2 ^ 32) 0))"
  have out: "concat (WriteTo_steps ?c) = ascii ''PUB t'' @ [10] @ [0, 0, 0, 0] @ replicate (2 ^ 32) 0"
    unfolding concat_WriteTo_steps
    by (simp add: Publish_def command_line_def ascii_def PutUint32_def)
  have "\<not> frame_spec ?c (concat (WriteTo_steps ?c))"
    unfolding frame_spec_written by (simp add: Publish_def)
  then show ?thesis
    unfolding WriteTo_Buffer out by (simp add: ascii_def)
qed

subsection \<open>C2: the body of MPUB\<close>

text \<open>
  C2, as amended. For every topic and every list of fewer than \<open>2^32\<close> messages, each shorter
  than \<open>2^31\<close> bytes, whose assembled body (four bytes, and four bytes and the message for
  each message) is at most \<open>2^48\<close> bytes, \<open>MultiPublish\<close> returns the Command MPUB with the
  topic as its only parameter and a body made of four bytes whose big-endian unsigned value
  is the number of messages and then, for each message in order, four bytes whose big-endian
  signed value is the length of the message, and the message, with nothing in between.
\<close>

theorem MultiPublish_body:
  assumes "length bodies < 2 ^ 32" and "\<forall>b \<in> set bodies. length b < 2 ^ 31"
    and "mpub_size bodies \<le> maxAlloc"
  shows "\<exists>body. MultiPublish topic bodies =
                  Return (Inr \<lparr>Name = ascii ''MPUB'', Params = [topic], Body = Some body\<rparr>) \<and>
                mpub_body_spec bodies body"
proof -
  have "unat (of_nat (length bodies) :: 32 word) = length bodies"
    using assms(1) by (simp add: unat_of_nat)
  then show ?thesis
    using mpub_messages_written[OF assms(2)] assms(3)
    by (simp add: MultiPublish_eq mpub_body_spec_def length_PutUint32 be_uint_PutUint32)
qed

text \<open>The instance \<open>MPUB("t", ["a", "bb"])\<close> of the specification.\<close>

theorem MultiPublish_body_witness:
  "length [ascii ''a'', ascii ''bb''] < 2 ^ 32 \<and>
   length (ascii ''a'') < 2 ^ 31 \<and> length (ascii ''bb'') < 2 ^ 31 \<and>
   mpub_size [ascii ''a'', ascii ''bb''] \<le> maxAlloc \<and>
   (MultiPublish (ascii ''t'') [ascii ''a'', ascii ''bb''] :: (unit + Command) outcome) =
     Return (Inr \<lparr>Name = ascii ''MPUB'', Params = [ascii ''t''],
          Body = Some ([0, 0, 0, 2] @ [0, 0, 0, 1] @ ascii ''a'' @ [0, 0, 0, 2] @ ascii ''bb'')\<rparr>) \<and>
   mpub_body_spec [ascii ''a'', ascii ''bb'']
     ([0, 0, 0, 2] @ [0, 0, 0, 1] @ ascii ''a'' @ [0, 0, 0, 2] @ ascii ''bb'')"
proof -
  have h1: "length [ascii ''a'', ascii ''bb''] < 2 ^ 32" by simp
  have h2: "\<forall>b \<in> set [ascii ''a'', ascii ''bb'']. length b < 2 ^ 31" by (simp add: ascii_def)
  have h3: "mpub_size [ascii ''a'', ascii ''bb''] \<le> maxAlloc"
    by (simp add: mpub_size_def maxAlloc_def ascii_def)
  have eq: "(MultiPublish (ascii ''t'') [ascii ''a'', ascii ''bb''] :: (unit + Command) outcome) =
     Return (Inr \<lparr>Name = ascii ''MPUB'', Params = [ascii ''t''],
          Body = Some ([0, 0, 0, 2] @ [0, 0, 0, 1] @ ascii ''a'' @ [0, 0, 0, 2] @ ascii ''bb'')\<rparr>)"
    by (simp add: MultiPublish_def makeslice_ok_def maxAlloc_def Buffer_fits_def
          binary_Write_def Buffer_Write_def PutUint32_def ascii_def)
  from MultiPublish_body[OF h1 h2 h3, of "ascii ''t''"] obtain body where
    b1: "(MultiPublish (ascii ''t'') [ascii ''a'', ascii ''bb''] :: (unit + Command) outcome) =
           Return (Inr \<lparr>Name = ascii ''MPUB'', Params = [ascii ''t''], Body = Some body\<rparr>)" and
    b2: "mpub_body_spec [ascii ''a'', ascii ''bb''] body"
    by blast
  from b1 eq have "body = [0, 0, 0, 2] @ [0, 0, 0, 1] @ ascii ''a'' @ [0, 0, 0, 2] @ ascii ''bb''"
    by simp
  with b2 have "mpub_body_spec [ascii ''a'', ascii ''bb'']
     ([0, 0, 0, 2] @ [0, 0, 0, 1] @ ascii ''a'' @ [0, 0, 0, 2] @ ascii ''bb'')"
    by simp
  with eq h1 h2 h3 show ?thesis by simp
qed

text \<open>
  C2 as stated fails for a message of \<open>2^31\<close> bytes: \<open>int32(len(b))\<close> is \<open>-2^31\<close>, so the
  length field \<open>80 00 00 00\<close> is a signed integer that is not the length of the message.
  It fails as well for 300000 messages of \<open>2^30\<close> bytes (one slice, given 300000 times):
  \<open>bodySize\<close> is 322122548400004, more than \<open>2^48\<close>, \<open>make\<close> panics and no Command is built.
\<close>

theorem MultiPublish_body_counterexample:
  "(MultiPublish (ascii ''t'') [replicate (2 ^ 31) 0] :: (unit + Command) outcome) =
     Return (Inr \<lparr>Name = ascii ''MPUB'', Params = [ascii ''t''],
          Body = Some ([0, 0, 0, 1] @ [128, 0, 0, 0] @ replicate (2 ^ 31) 0)\<rparr>) \<and>
   be_sint32 [128, 0, 0, 0] = - 2147483648 \<and>
   \<not> mpub_body_spec [replicate (2 ^ 31) 0] ([0, 0, 0, 1] @ [128, 0, 0, 0] @ replicate (2 ^ 31) 0) \<and>
   MultiPublish_bodySize (replicate 300000 (replicate (2 ^ 30) 0)) 4 = 322122548400004 \<and>
   \<not> makeslice_ok 322122548400004 \<and>
   (MultiPublish (ascii ''t'') (replicate 300000 (replicate (2 ^ 30) 0)) :: (unit + Command) outcome) =
     Panic"
proof -
  have "(MultiPublish (ascii ''t'') [replicate (2 ^ 31) 0] :: (unit + Command) outcome) =
     Return (Inr \<lparr>Name = ascii ''MPUB'', Params = [ascii ''t''],
          Body = Some ([0, 0, 0, 1] @ [128, 0, 0, 0] @ replicate (2 ^ 31) 0)\<rparr>)"
    by (simp add: MultiPublish_eq mpub_size_def maxAlloc_def PutUint32_def drop_bit_eq_div)
  moreover have "be_sint32 [128, 0, 0, 0] = - 2147483648"
    by (simp add: be_sint32_def be_uint_def)
  moreover have "MultiPublish_bodySize (replicate 300000 (replicate (2 ^ 30) 0)) 4 = 322122548400004"
    by (simp add: MultiPublish_bodySize_eq sum_list_replicate)
  moreover have "\<not> makeslice_ok 322122548400004"
    by (simp add: makeslice_ok_def maxAlloc_def)
  moreover have
    "(MultiPublish (ascii ''t'') (replicate 300000 (replicate (2 ^ 30) 0)) :: (unit + Command) outcome) =
     Panic"
    by (simp add: MultiPublish_eq mpub_size_def maxAlloc_def sum_list_replicate)
  ultimately show ?thesis
    by (simp add: mpub_body_spec_def)
qed

subsection \<open>C3: the round trip through a decoder\<close>

text \<open>
  C3, as amended. For every Command produced by a constructor of the table from arguments
  whose topic, channel and message identifier hold neither the space byte nor the newline byte,
  and whose body, when present, is shorter than \<open>2^32\<close> bytes, the decoder applied to the
  bytes \<open>WriteTo\<close> writes recovers the name, the parameters and the body exactly. (The
  decimal parameters of DPUB, RDY and REQ never hold a delimiter.)
\<close>

theorem round_trip_constructors:
  assumes topic: "no_delimiter topic" and channel: "no_delimiter channel"
    and mid: "MessageID mid" "no_delimiter mid"
    and body: "case body of None \<Rightarrow> True | Some b \<Rightarrow> length b < 2 ^ 32"
    and ident: "Identify marshal js = Inr ci" "body_fits ci"
    and auth: "Auth secret = Inr ca" "body_fits ca"
    and mpub: "MultiPublish topic bodies = Return (Inr cm)" "body_fits cm"
  shows "round_trips ci \<and> round_trips ca \<and>
         round_trips (Register topic channel) \<and> round_trips (UnRegister topic channel) \<and>
         round_trips Ping \<and> round_trips (Publish topic body) \<and>
         round_trips (DeferredPublish topic delay body) \<and> round_trips cm \<and>
         round_trips (Subscribe topic channel) \<and> round_trips (Ready count) \<and>
         round_trips (Finish mid) \<and> round_trips (Requeue mid delay) \<and>
         round_trips (Touch mid) \<and> round_trips StartClose \<and> round_trips Nop"
proof -
  have ci: "round_trips ci"
    using ident by (intro decode_written) (auto simp: Identify_def no_delimiter_verbs split: sum.splits)
  have ca: "round_trips ca"
    using auth by (intro decode_written) (auto simp: Auth_def no_delimiter_verbs)
  have cm: "round_trips cm"
    using mpub topic
    by (intro decode_written) (auto simp: MultiPublish_eq no_delimiter_verbs split: if_splits)
  have reg: "round_trips (Register topic channel)"
    using topic channel
    by (intro decode_written) (auto simp: Register_def Let_def body_fits_def no_delimiter_verbs)
  have unreg: "round_trips (UnRegister topic channel)"
    using topic channel
    by (intro decode_written) (auto simp: UnRegister_def Let_def body_fits_def no_delimiter_verbs)
  have ping: "round_trips Ping"
    by (intro decode_written) (auto simp: Ping_def body_fits_def no_delimiter_verbs)
  have pub: "round_trips (Publish topic body)"
    using topic body
    by (intro decode_written) (auto simp: Publish_def body_fits_def no_delimiter_verbs)
  have dpub: "round_trips (DeferredPublish topic delay body)"
    using topic body
    by (intro decode_written)
       (auto simp: DeferredPublish_def body_fits_def no_delimiter_verbs no_delimiter_Itoa)
  have sub: "round_trips (Subscribe topic channel)"
    using topic channel
    by (intro decode_written) (auto simp: Subscribe_def body_fits_def no_delimiter_verbs)
  have rdy: "round_trips (Ready count)"
    by (intro decode_written)
       (auto simp: Ready_def body_fits_def no_delimiter_verbs no_delimiter_Itoa)
  have fin: "round_trips (Finish mid)"
    using mid
    by (intro decode_written) (auto simp: Finish_def body_fits_def no_delimiter_verbs)
  have req: "round_trips (Requeue mid delay)"
    using mid
    by (intro decode_written)
       (auto simp: Requeue_def body_fits_def no_delimiter_verbs no_delimiter_Itoa)
  have touch: "round_trips (Touch mid)"
    using mid
    by (intro decode_written) (auto simp: Touch_def body_fits_def no_delimiter_verbs)
  have cls: "round_trips StartClose"
    by (intro decode_written) (auto simp: StartClose_def body_fits_def no_delimiter_verbs)
  have nop: "round_trips Nop"
    by (intro decode_written) (auto simp: Nop_def body_fits_def no_delimiter_verbs)
  from ci ca reg unreg ping pub dpub cm sub rdy fin req touch cls nop show ?thesis
    by blast
qed

text \<open>One Command of every verb, with a message identifier of raw bytes.\<close>

theorem round_trip_constructors_witness:
  "no_delimiter (ascii ''test'') \<and> no_delimiter (ascii ''ch'') \<and>
   MessageID [0, 1, 2, 3, 4, 5, 6, 7, 8, 9, 255, 11, 12, 13, 14, 15] \<and>
   no_delimiter [0, 1, 2, 3, 4, 5, 6, 7, 8, 9, 255, 11, 12, 13, 14, 15] \<and>
   length (ascii ''hello'') < 2 ^ 32 \<and>
   round_trips \<lparr>Name = ascii ''IDENTIFY'', Params = [], Body = Some (ascii ''{}'')\<rparr> \<and>
   round_trips \<lparr>Name = ascii ''AUTH'', Params = [], Body = Some (ascii ''secret'')\<rparr> \<and>
   round_trips (Register (ascii ''test'') (ascii ''ch'')) \<and>
   round_trips (UnRegister (ascii ''test'') (ascii ''ch'')) \<and>
   round_trips Ping \<and>
   round_trips (Publish (ascii ''test'') (Some (ascii ''hello''))) \<and>
   round_trips (DeferredPublish (ascii ''test'') 1500000000 (Some (ascii ''hello''))) \<and>
   round_trips \<lparr>Name = ascii ''MPUB'', Params = [ascii ''test''],
                Body = Some ([0, 0, 0, 2] @ [0, 0, 0, 1] @ ascii ''a'' @ [0, 0, 0, 2] @ ascii ''bb'')\<rparr> \<and>
   round_trips (Subscribe (ascii ''test'') (ascii ''ch'')) \<and>
   round_trips (Ready 5) \<and>
   round_trips (Finish [0, 1, 2, 3, 4, 5, 6, 7, 8, 9, 255, 11, 12, 13, 14, 15]) \<and>
   round_trips (Requeue [0, 1, 2, 3, 4, 5, 6, 7, 8, 9, 255, 11, 12, 13, 14, 15] 1500000000) \<and>
   round_trips (Touch [0, 1, 2, 3, 4, 5, 6, 7, 8, 9, 255, 11, 12, 13, 14, 15]) \<and>
   round_trips StartClose \<and> round_trips Nop"
proof -
  let ?mid = "[0, 1, 2, 3, 4, 5, 6, 7, 8, 9, 255, 11, 12, 13, 14, 15] :: bytes"
  let ?ci = "\<lparr>Name = ascii ''IDENTIFY'', Params = [], Body = Some (ascii ''{}'')\<rparr>"
  let ?ca = "\<lparr>Name = ascii ''AUTH'', Params = [], Body = Some (ascii ''secret'')\<rparr>"
  let ?cm = "\<lparr>Name = ascii ''MPUB'', Params = [ascii ''test''],
                Body = Some ([0, 0, 0, 2] @ [0, 0, 0, 1] @ ascii ''a'' @ [0, 0, 0, 2] @ ascii ''bb'')\<rparr>"
  have h1: "no_delimiter (ascii ''test'')" by (simp add: no_delimiter_def ascii_def)
  have h2: "no_delimiter (ascii ''ch'')" by (simp add: no_delimiter_def ascii_def)
  have h3: "MessageID ?mid" by (simp add: MessageID_def)
  have h4: "no_delimiter ?mid" by (simp add: no_delimiter_def)
  have h5: "case Some (ascii ''hello'') of None \<Rightarrow> True | Some b \<Rightarrow> length b < 2 ^ 32"
    by (simp add: ascii_def)
  have h6: "Identify (\<lambda>js. (Inr (ascii ''{}'') :: unit + bytes)) () = Inr ?ci"
    by (simp add: Identify_def)
  have h7: "body_fits ?ci" by (simp add: body_fits_def ascii_def)
  have h8: "(Auth (ascii ''secret'') :: unit + Command) = Inr ?ca" by (simp add: Auth_def)
  have h9: "body_fits ?ca" by (simp add: body_fits_def ascii_def)
  have h10: "(MultiPublish (ascii ''test'') [ascii ''a'', ascii ''bb''] :: (unit + Command) outcome) =
             Return (Inr ?cm)"
    by (simp add: MultiPublish_def makeslice_ok_def maxAlloc_def Buffer_fits_def
          binary_Write_def Buffer_Write_def PutUint32_def ascii_def)
  have h11: "body_fits ?cm" by (simp add: body_fits_def ascii_def)
  from round_trip_constructors[OF h1 h2 h3 h4 h5 h6 h7 h8 h9 h10 h11, of 1500000000 5]
    h1 h2 h3 h4 h5
  show ?thesis by simp
qed

text \<open>
  C3 as stated fails. A message identifier is 16 arbitrary bytes and may hold the space byte:
  \<open>FIN\<close> of such an identifier is decoded with two parameters. No decoder at all can
  recover every constructed Command: \<open>REGISTER("a b", "")\<close> and \<open>REGISTER("a", "b")\<close> are
  different Commands written as the same bytes.
\<close>

theorem round_trip_counterexample:
  "MessageID (ascii ''0123 56789abcdef'') \<and>
   decode (snd (WriteTo (Buffer_Write :: (bytes, unit) Writer) (Finish (ascii ''0123 56789abcdef'')) [])) =
     Some \<lparr>Name = ascii ''FIN'', Params = [ascii ''0123'', ascii ''56789abcdef''], Body = None\<rparr> \<and>
   \<not> round_trips (Finish (ascii ''0123 56789abcdef'')) \<and>
   snd (WriteTo (Buffer_Write :: (bytes, unit) Writer) (Register (ascii ''a b'') []) []) =
   snd (WriteTo (Buffer_Write :: (bytes, unit) Writer) (Register (ascii ''a'') (ascii ''b'')) []) \<and>
   Register (ascii ''a b'') [] \<noteq> Register (ascii ''a'') (ascii ''b'')"
  by (simp add: round_trips_def decode_def WriteTo_def Buffer_Write_def Finish_def Register_def
        MessageID_def ascii_def byteSpace_def byteNewLine_def)

subsection \<open>C4: the byte count and the first error\<close>

text \<open>
  C4, as amended. For every Command and every writer, run \<open>WriteTo\<close> on the writer with a
  log of its \<open>Write\<close> calls. The log does not change the result. The count returned is the
  sum, in the arithmetic of \<open>int64\<close>, of the counts the writer reported over all calls made;
  it is their sum as numbers whenever that sum lies between \<open>-2^63\<close> and \<open>2^63 - 1\<close>. The
  slices written are, in order, an initial part of the steps of \<open>WriteTo\<close>. If no error is
  returned, every step was written and no call reported an error. If an error is returned,
  it is the error of the last call made, and no earlier call reported one: the first failing
  write is the last write, and its error is returned as it is, with the count up to and
  including what that call reported.
\<close>

theorem WriteTo_count_and_error:
  assumes "WriteTo (traced w) c (s, []) = ((tot, err), (s', log))"
  shows "WriteTo w c s = ((tot, err), s') \<and>
         tot = sum_list (map (\<lambda>x. fst (snd x)) log) \<and>
         (- (2 ^ 63) \<le> sum_list (map (\<lambda>x. sint (fst (snd x))) log) \<and>
          sum_list (map (\<lambda>x. sint (fst (snd x))) log) < 2 ^ 63 \<longrightarrow>
            sint tot = sum_list (map (\<lambda>x. sint (fst (snd x))) log)) \<and>
         map fst log = take (length log) (WriteTo_steps c) \<and>
         (case err of
            None \<Rightarrow> length log = length (WriteTo_steps c) \<and> (\<forall>x \<in> set log. snd (snd x) = None)
          | Some e \<Rightarrow> log \<noteq> [] \<and> snd (snd (last log)) = Some e \<and>
                      (\<forall>x \<in> set (butlast log). snd (snd x) = None))"
proof -
  have main: "WriteTo w c s = ((tot, err), s') \<and>
         tot = sum_list (map (\<lambda>x. fst (snd x)) log) \<and>
         map fst log = take (length log) (WriteTo_steps c) \<and>
         (case err of
            None \<Rightarrow> length log = length (WriteTo_steps c) \<and> (\<forall>x \<in> set log. snd (snd x) = None)
          | Some e \<Rightarrow> log \<noteq> [] \<and> snd (snd (last log)) = Some e \<and>
                      (\<forall>x \<in> set (butlast log). snd (snd x) = None))"
    using write_each_traced[of w "WriteTo_steps c" 0 s "[]" tot err s' log] assms
    by (simp add: WriteTo_each)
  have "sint tot = sum_list (map (\<lambda>x. sint (fst (snd x))) log)"
    if "- (2 ^ 63) \<le> sum_list (map (\<lambda>x. sint (fst (snd x))) log)"
      and "sum_list (map (\<lambda>x. sint (fst (snd x))) log) < 2 ^ 63"
    using sum_list_sint[of "map (\<lambda>x. fst (snd x)) log"] that main
    by (simp add: comp_def)
  with main show ?thesis by blast
qed

text \<open>
  \<open>PUB("test", "hello")\<close> on a writer with room for 6 bytes: the third write fails after 2
  bytes, nothing more is written, and 6 is returned with the error.
\<close>

theorem WriteTo_count_and_error_witness:
  "WriteTo (traced (Limited_Write 6)) (Publish (ascii ''test'') (Some (ascii ''hello''))) ([], []) =
     ((6, Some ''short write''),
      (ascii ''PUB te'',
       [(ascii ''PUB'', 3, None), (ascii '' '', 1, None), (ascii ''test'', 2, Some ''short write'')])) \<and>
   WriteTo (Limited_Write 6) (Publish (ascii ''test'') (Some (ascii ''hello''))) [] =
     ((6, Some ''short write''), ascii ''PUB te'') \<and>
   - (2 ^ 63) \<le> sum_list (map (\<lambda>x. sint (fst (snd x)))
     [(ascii ''PUB'', 3 :: 64 word, None), (ascii '' '', 1, None),
      (ascii ''test'', 2, Some ''short write'')]) \<and>
   sum_list (map (\<lambda>x. sint (fst (snd x)))
     [(ascii ''PUB'', 3 :: 64 word, None), (ascii '' '', 1, None),
      (ascii ''test'', 2, Some ''short write'')]) < 2 ^ 63 \<and>
   sint (6 :: 64 word) = sum_list (map (\<lambda>x. sint (fst (snd x)))
     [(ascii ''PUB'', 3 :: 64 word, None), (ascii '' '', 1, None),
      (ascii ''test'', 2, Some ''short write'')])"
proof -
  have run: "WriteTo (traced (Limited_Write 6)) (Publish (ascii ''test'') (Some (ascii ''hello''))) ([], []) =
     ((6, Some ''short write''),
      (ascii ''PUB te'',
       [(ascii ''PUB'', 3, None), (ascii '' '', 1, None), (ascii ''test'', 2, Some ''short write'')]))"
    by (simp add: WriteTo_def traced_def Limited_Write_def Publish_def ascii_def byteSpace_def)
  from WriteTo_count_and_error[OF run] run show ?thesis
    by simp
qed

text \<open>
  C4 as stated fails once the counts pass \<open>2^63 - 1\<close>, since \<open>total\<close> is an \<open>int64\<close>.
  On \<open>io.Discard\<close>, a Command whose parameters are one slice of \<open>2^40\<close> bytes given \<open>2^23\<close>
  times is written in 9223372036863164420 bytes without an error, and the count returned is
  -9223372036846387196. On a writer that reports \<open>2^63 - 1\<close> for every slice, PING is
  written in two calls and the count returned is -2.
\<close>

theorem WriteTo_count_counterexample:
  "WriteTo (Discard_Write :: (unit, unit) Writer)
     \<lparr>Name = ascii ''PUB'', Params = replicate (2 ^ 23) (replicate (2 ^ 40) 0), Body = None\<rparr> () =
     ((- 9223372036846387196, None), ()) \<and>
   sint (- 9223372036846387196 :: 64 word) = - 9223372036846387196 \<and>
   length (concat (WriteTo_steps
     \<lparr>Name = ascii ''PUB'', Params = replicate (2 ^ 23) (replicate (2 ^ 40) 0), Body = None\<rparr>)) =
     9223372036863164420 \<and>
   WriteTo (Boasting_Write :: (unit, unit) Writer) Ping () = ((- 2, None), ()) \<and>
   sint (- 2 :: 64 word) = - 2"
proof -
  let ?c = "\<lparr>Name = ascii ''PUB'', Params = replicate (2 ^ 23) (replicate (2 ^ 40) 0), Body = None\<rparr>"
  have len: "length (concat (WriteTo_steps ?c)) = 9223372036863164420"
    by (simp add: concat_WriteTo_steps command_line_def ascii_def length_concat sum_list_replicate)
  have "WriteTo (Discard_Write :: (unit, unit) Writer) ?c () = ((- 9223372036846387196, None), ())"
    unfolding WriteTo_Discard len by simp
  moreover have "WriteTo (Boasting_Write :: (unit, unit) Writer) Ping () = ((- 2, None), ())"
    by (simp add: WriteTo_def Boasting_Write_def Ping_def)
  ultimately show ?thesis using len by simp
qed

subsection \<open>C5: FIN\<close>

text \<open>
  C5. For every 16-byte message identifier, \<open>Finish\<close> builds the Command FIN whose only
  parameter is the identifier itself, byte for byte, with no body; \<open>WriteTo\<close> writes the 21
  bytes \<open>"FIN "\<close>, the 16 bytes of the identifier and the newline, and nothing after it.
\<close>

theorem Finish_encoding:
  assumes "MessageID mid"
  shows "Finish mid = \<lparr>Name = ascii ''FIN'', Params = [mid], Body = None\<rparr> \<and>
         WriteTo Buffer_Write (Finish mid) buf = ((21, None), buf @ ascii ''FIN '' @ mid @ [10])"
  using assms
  by (simp add: WriteTo_Buffer_bytes Finish_def MessageID_def command_line_def ascii_def)

text \<open>An identifier with bytes that are not text, among them 0, 255, newline and space.\<close>

theorem Finish_encoding_witness:
  "MessageID [0, 255, 10, 32, 65, 128, 7, 8, 9, 1, 2, 3, 4, 5, 6, 200] \<and>
   Finish [0, 255, 10, 32, 65, 128, 7, 8, 9, 1, 2, 3, 4, 5, 6, 200] =
     \<lparr>Name = ascii ''FIN'', Params = [[0, 255, 10, 32, 65, 128, 7, 8, 9, 1, 2, 3, 4, 5, 6, 200]],
      Body = None\<rparr> \<and>
   WriteTo (Buffer_Write :: (bytes, unit) Writer)
     (Finish [0, 255, 10, 32, 65, 128, 7, 8, 9, 1, 2, 3, 4, 5, 6, 200]) [] =
     ((21, None),
      ascii ''FIN '' @ [0, 255, 10, 32, 65, 128, 7, 8, 9, 1, 2, 3, 4, 5, 6, 200] @ [10])"
proof -
  have h: "MessageID [0, 255, 10, 32, 65, 128, 7, 8, 9, 1, 2, 3, 4, 5, 6, 200]"
    by (simp add: MessageID_def)
  from Finish_encoding[OF h, of "[]"] h show ?thesis by simp
qed

subsection \<open>C6: IDENTIFY\<close>

text \<open>
  C6. For every option map, \<open>Identify\<close> returns an error exactly when the JSON encoder
  returns one, and then returns that error and no Command; when the encoder returns the bytes
  \<open>body\<close>, \<open>Identify\<close> returns the Command IDENTIFY with no parameters and the body
  \<open>body\<close>. \<open>Identify\<close> takes no writer: it writes nothing.
\<close>

theorem Identify_result:
  "(\<forall>err. marshal js = Inl err \<longrightarrow> Identify marshal js = Inl err) \<and>
   (\<forall>body. marshal js = Inr body \<longrightarrow>
      Identify marshal js = Inr \<lparr>Name = ascii ''IDENTIFY'', Params = [], Body = Some body\<rparr>) \<and>
   ((\<exists>err. Identify marshal js = Inl err) \<longleftrightarrow> (\<exists>err. marshal js = Inl err))"
  by (auto simp: Identify_def split: sum.splits)

text \<open>An encoder that rejects its input, and one that accepts it.\<close>

theorem Identify_result_witness:
  "Identify (\<lambda>js :: unit. (Inl ''json: unsupported type'' :: string + bytes)) () =
     Inl ''json: unsupported type'' \<and>
   Identify (\<lambda>js :: unit. (Inr (ascii ''{}'') :: string + bytes)) () =
     Inr \<lparr>Name = ascii ''IDENTIFY'', Params = [], Body = Some (ascii ''{}'')\<rparr>"
  using Identify_result[of "\<lambda>js :: unit. (Inl ''json: unsupported type'' :: string + bytes)" "()"]
        Identify_result[of "\<lambda>js :: unit. (Inr (ascii ''{}'') :: string + bytes)" "()"]
  by simp

subsection \<open>C7: REGISTER and UNREGISTER\<close>

text \<open>
  C7. For every topic and channel, \<open>Register\<close> and \<open>UnRegister\<close> build a Command with no
  body whose parameters are the topic and the channel when the channel is not empty, and the
  topic alone when it is empty.
\<close>

theorem Register_params:
  "Register topic channel =
     \<lparr>Name = ascii ''REGISTER'',
      Params = (if channel = [] then [topic] else [topic, channel]), Body = None\<rparr> \<and>
   UnRegister topic channel =
     \<lparr>Name = ascii ''UNREGISTER'',
      Params = (if channel = [] then [topic] else [topic, channel]), Body = None\<rparr>"
  by (simp add: Register_def UnRegister_def)

text \<open>With a channel and with the empty channel.\<close>

theorem Register_params_witness:
  "Register (ascii ''topic'') (ascii ''chan'') =
     \<lparr>Name = ascii ''REGISTER'', Params = [ascii ''topic'', ascii ''chan''], Body = None\<rparr> \<and>
   Register (ascii ''topic'') [] =
     \<lparr>Name = ascii ''REGISTER'', Params = [ascii ''topic''], Body = None\<rparr> \<and>
   UnRegister (ascii ''topic'') (ascii ''chan'') =
     \<lparr>Name = ascii ''UNREGISTER'', Params = [ascii ''topic'', ascii ''chan''], Body = None\<rparr> \<and>
   UnRegister (ascii ''topic'') [] =
     \<lparr>Name = ascii ''UNREGISTER'', Params = [ascii ''topic''], Body = None\<rparr>"
  using Register_params[of "ascii ''topic''" "ascii ''chan''"] Register_params[of "ascii ''topic''" "[]"]
  by (simp add: ascii_def)

subsection \<open>C8: String\<close>



subsection \<open>C9: an absent body and an empty body\<close>

text \<open>
  C9. Whether \<open>WriteTo\<close> writes a body section depends only on whether \<open>Body\<close>
  is \<open>nil\<close>. For every topic, \<open>Publish\<close> and \<open>DeferredPublish\<close> with a \<open>nil\<close> payload are
  written as the command line alone, and with a non-nil payload of length zero as the command
  line and the length field \<open>00 00 00 00\<close>; for every Command the two encodings differ.
  \<open>Auth\<close> takes a string, which cannot be \<open>nil\<close>: its body is always present and is written
  after its length field.
\<close>

theorem body_presence:
  "WriteTo (Buffer_Write :: (bytes, 'e) Writer) (Publish topic None) buf =
     ((of_nat (length topic) + 5, None), buf @ ascii ''PUB '' @ topic @ [10]) \<and>
   WriteTo (Buffer_Write :: (bytes, 'e) Writer) (Publish topic (Some [])) buf =
     ((of_nat (length topic) + 9, None), buf @ ascii ''PUB '' @ topic @ [10] @ [0, 0, 0, 0]) \<and>
   snd (WriteTo (Buffer_Write :: (bytes, 'e) Writer) (DeferredPublish topic delay None) buf) =
     buf @ ascii ''DPUB '' @ topic @ [32] @ Itoa (sint delay sdiv 1000000) @ [10] \<and>
   snd (WriteTo (Buffer_Write :: (bytes, 'e) Writer) (DeferredPublish topic delay (Some [])) buf) =
     buf @ ascii ''DPUB '' @ topic @ [32] @ Itoa (sint delay sdiv 1000000) @ [10] @ [0, 0, 0, 0] \<and>
   (Auth secret :: 'e + Command) = Inr \<lparr>Name = ascii ''AUTH'', Params = [], Body = Some secret\<rparr> \<and>
   snd (WriteTo (Buffer_Write :: (bytes, 'e) Writer) \<lparr>Name = ascii ''AUTH'', Params = [], Body = Some secret\<rparr> buf) =
     buf @ ascii ''AUTH'' @ [10] @ PutUint32 (of_nat (length secret)) @ secret \<and>
   snd (WriteTo (Buffer_Write :: (bytes, 'e) Writer) (c\<lparr>Body := None\<rparr>) buf) = buf @ command_line c \<and>
   snd (WriteTo (Buffer_Write :: (bytes, 'e) Writer) (c\<lparr>Body := Some []\<rparr>) buf) = buf @ command_line c @ [0, 0, 0, 0] \<and>
   snd (WriteTo (Buffer_Write :: (bytes, 'e) Writer) (c\<lparr>Body := None\<rparr>) buf) \<noteq>
   snd (WriteTo (Buffer_Write :: (bytes, 'e) Writer) (c\<lparr>Body := Some []\<rparr>) buf)"
  by (simp add: WriteTo_Buffer_bytes PutUint32_0 Publish_def DeferredPublish_def Auth_def
        command_line_def ascii_def)

text \<open>The topic \<open>test\<close>, a delay of 1.5 seconds, and the empty secret.\<close>

theorem body_presence_witness:
  "WriteTo (Buffer_Write :: (bytes, unit) Writer) (Publish (ascii ''test'') None) [] =
     ((9, None), ascii ''PUB test'' @ [10]) \<and>
   WriteTo (Buffer_Write :: (bytes, unit) Writer) (Publish (ascii ''test'') (Some [])) [] =
     ((13, None), ascii ''PUB test'' @ [10] @ [0, 0, 0, 0]) \<and>
   snd (WriteTo (Buffer_Write :: (bytes, unit) Writer) (DeferredPublish (ascii ''test'') 1500000000 None) []) =
     ascii ''DPUB test 1500'' @ [10] \<and>
   snd (WriteTo (Buffer_Write :: (bytes, unit) Writer) (DeferredPublish (ascii ''test'') 1500000000 (Some [])) []) =
     ascii ''DPUB test 1500'' @ [10] @ [0, 0, 0, 0] \<and>
   (Auth [] :: unit + Command) = Inr \<lparr>Name = ascii ''AUTH'', Params = [], Body = Some []\<rparr> \<and>
   snd (WriteTo (Buffer_Write :: (bytes, unit) Writer) \<lparr>Name = ascii ''AUTH'', Params = [], Body = Some []\<rparr> []) =
     ascii ''AUTH'' @ [10] @ [0, 0, 0, 0]"
proof -
  have ms: "sint (1500000000 :: 64 word) sdiv 1000000 = 1500"
    by (simp add: signed_divide_int_def)
  have it: "Itoa 1500 = ascii ''1500''"
    by (simp add: Itoa_def decimal.simps ascii_def)
  from body_presence[of "ascii ''test''" "[]" 1500000000 "[]" "\<lparr>Name = [], Params = [], Body = None\<rparr>",
        where 'e = unit]
  show ?thesis
    by (simp add: ms it PutUint32_0 ascii_def)
qed

subsection \<open>C10: constructors that never return an error\<close>

text \<open>
  C10, as amended. \<open>Auth\<close> returns a Command and no error for every secret. \<open>MultiPublish\<close>
  returns an error for no topic and no list of messages: the loop that fills the buffer never
  yields an error, since \<open>bytes.Buffer.Write\<close> returns none. For every list whose assembled
  body is at most \<open>2^48\<close> bytes it returns a Command and no error; for every other list it
  panics and returns nothing.
\<close>

theorem constructors_return_no_error:
  "(\<exists>c. (Auth secret :: 'e + Command) = Inr c) \<and>
   (\<forall>err. (MultiPublish topic bodies :: ('e + Command) outcome) \<noteq> Return (Inl err)) \<and>
   (\<forall>err buf'. (MultiPublish_bodies bodies buf :: ('e option \<times> bytes) outcome) \<noteq>
      Return (Some err, buf')) \<and>
   (if mpub_size bodies \<le> maxAlloc
    then \<exists>c. (MultiPublish topic bodies :: ('e + Command) outcome) = Return (Inr c)
    else (MultiPublish topic bodies :: ('e + Command) outcome) = Panic)"
  by (simp add: Auth_def MultiPublish_eq MultiPublish_bodies_no_error)

text \<open>A secret, and \<open>MPUB("t", ["a", "bb"])\<close>, which runs the loop twice.\<close>

theorem constructors_return_no_error_witness:
  "(Auth (ascii ''secret'') :: unit + Command) =
     Inr \<lparr>Name = ascii ''AUTH'', Params = [], Body = Some (ascii ''secret'')\<rparr> \<and>
   mpub_size [ascii ''a'', ascii ''bb''] \<le> maxAlloc \<and>
   (MultiPublish (ascii ''t'') [ascii ''a'', ascii ''bb''] :: (unit + Command) outcome) =
     Return (Inr \<lparr>Name = ascii ''MPUB'', Params = [ascii ''t''],
          Body = Some ([0, 0, 0, 2] @ [0, 0, 0, 1] @ ascii ''a'' @ [0, 0, 0, 2] @ ascii ''bb'')\<rparr>) \<and>
   (MultiPublish_bodies [ascii ''a'', ascii ''bb''] [0, 0, 0, 2] :: (unit option \<times> bytes) outcome) =
     Return (None, [0, 0, 0, 2] @ [0, 0, 0, 1] @ ascii ''a'' @ [0, 0, 0, 2] @ ascii ''bb'')"
proof -
  have fits: "mpub_size [ascii ''a'', ascii ''bb''] \<le> maxAlloc"
    by (simp add: mpub_size_def maxAlloc_def ascii_def)
  from constructors_return_no_error[of "ascii ''secret''" "ascii ''t''" "[ascii ''a'', ascii ''bb'']"
      "[0, 0, 0, 2]", where 'e = unit] fits
  obtain c1 c2 where "(Auth (ascii ''secret'') :: unit + Command) = Inr c1"
    and "(MultiPublish (ascii ''t'') [ascii ''a'', ascii ''bb''] :: (unit + Command) outcome) =
           Return (Inr c2)"
    by auto
  then show ?thesis
    using fits
    by (simp add: Auth_def MultiPublish_def makeslice_ok_def maxAlloc_def Buffer_fits_def
          binary_Write_def Buffer_Write_def PutUint32_def ascii_def)
qed

text \<open>
  C10 as stated fails for 300000 messages of \<open>2^30\<close> bytes (one slice, given 300000 times):
  the capacity asked of \<open>make\<close> is 322122548400004, more than \<open>2^48\<close>, and \<open>MultiPublish\<close>
  panics: it returns neither a Command nor a \<open>nil\<close> error.
\<close>

theorem constructors_return_no_error_counterexample:
  "mpub_size (replicate 300000 (replicate (2 ^ 30) 0)) = 322122548400004 \<and>
   \<not> makeslice_ok 322122548400004 \<and>
   (MultiPublish (ascii ''t'') (replicate 300000 (replicate (2 ^ 30) 0)) :: (unit + Command) outcome) =
     Panic \<and>
   \<not> (\<exists>c. (MultiPublish (ascii ''t'') (replicate 300000 (replicate (2 ^ 30) 0))
           :: (unit + Command) outcome) = Return (Inr c))"
  by (simp add: MultiPublish_eq mpub_size_def maxAlloc_def makeslice_ok_def sum_list_replicate)

end
